theory Spec2Isabelle
  imports Complex_Main "HOL-Library.Signed_Division"
begin

section \<open>Conventions of the embedding\<close>

text \<open>
  The three Cython modules of the scheduler's hot path are embedded function by function:
  the scoreboard operations (\<open>scoreboard_cy.pyx\<close>), the working-hours check and the
  time utilities. All three are compiled with the directives
  \<^verbatim>\<open>boundscheck=False\<close>, \<^verbatim>\<open>wraparound=False\<close> and \<^verbatim>\<open>cdivision=True\<close>, which
  decide what indexing and \<open>%\<close> mean on C-typed operands.

  \<^item> A C \<open>int\<close> is an \<open>int\<close> of HOL, and the 32 bits are written out where a value
    can leave them on inputs the function is meant for: the products of a slot index and
    a resolution, and what is added to or taken from a cast, wrap around (\<open>c_int\<close>).
    Hours and minutes of a day, their sums and the counters of a scan stay far inside
    the range and are left as they are.
  \<^item> A C \<open>double\<close> is a \<open>real\<close>, or no real at all after a division by zero
    (infinity or NaN). On the differences of whole-second instants that Python's
    \<open>datetime\<close> can hold, and C \<open>int\<close> resolutions, the double operations of the
    source are exact up to the cast, so the cast sees the same integer part.
  \<^item> The cast \<^verbatim>\<open><int>x\<close> of a double truncates towards zero when the result fits a C
    \<open>int\<close>. Otherwise C leaves it undefined; the conversion instruction of x86-64 then
    gives \<open>- 2 ^ 31\<close>, and so does the embedding.
  \<^item> A C \<open>float\<close> is a \<open>real\<close> as well: \<^verbatim>\<open>calculate_daily_hours\<close> rounds its quotient
    to single precision, the embedding keeps the exact quotient.
  \<^item> With \<^verbatim>\<open>cdivision=True\<close>, \<open>%\<close> on C \<open>int\<close>s is C's remainder: its sign follows
    the dividend (\<open>smod\<close>), unlike Python's \<open>%\<close> (\<open>mod\<close>).
  \<^item> A naive \<open>datetime\<close> with no sub-second part is the number of seconds since
    0001-01-01 00:00:00, which is a Monday in Python's proleptic Gregorian calendar.
    \<open>None\<close> in place of a datetime is \<open>None\<close> of \<open>datetime option\<close>.
\<close>

type_synonym datetime = int

record timedelta =
  days :: int
  seconds :: int
  microseconds :: int

text \<open>\<^verbatim>\<open>timedelta(seconds=s)\<close>: Python normalises to \<open>0 \<le> seconds < 86400\<close>.\<close>

definition timedelta_of_seconds :: "int \<Rightarrow> timedelta" where
  "timedelta_of_seconds s = \<lparr>days = s div 86400, seconds = s mod 86400, microseconds = 0\<rparr>"

text \<open>\<^verbatim>\<open>a - b\<close> on datetimes.\<close>

definition dt_minus :: "datetime \<Rightarrow> datetime \<Rightarrow> timedelta" where
  "dt_minus a b = timedelta_of_seconds (a - b)"

text \<open>\<^verbatim>\<open>a + td\<close> on a datetime and a timedelta of whole seconds.\<close>

definition dt_plus :: "datetime \<Rightarrow> timedelta \<Rightarrow> datetime" where
  "dt_plus a td = a + days td * 86400 + seconds td"

text \<open>\<^verbatim>\<open>dt.weekday()\<close> (0 is Monday, 6 is Sunday) and \<^verbatim>\<open>dt.hour\<close>.\<close>

definition dt_weekday :: "datetime \<Rightarrow> int" where
  "dt_weekday dt = (dt div 86400) mod 7"

definition dt_hour :: "datetime \<Rightarrow> int" where
  "dt_hour dt = (dt mod 86400) div 3600"

text \<open>The range of a C \<open>int\<close>, and the value it holds for an exact result \<open>x\<close>.\<close>

definition c_int_range :: "int \<Rightarrow> bool" where
  "c_int_range x = (- 2147483648 \<le> x \<and> x < 2147483648)"

definition c_int :: "int \<Rightarrow> int" where
  "c_int x = (x + 2147483648) mod 4294967296 - 2147483648"

text \<open>The quotient of two doubles: \<open>None\<close> is infinity or NaN.\<close>

definition double_div :: "real \<Rightarrow> real \<Rightarrow> real option" where
  "double_div x y = (if y = 0 then None else Some (x / y))"

text \<open>The integer part of a real, and the cast \<^verbatim>\<open><int>x\<close> of a C double.\<close>

definition c_trunc :: "real \<Rightarrow> int" where
  "c_trunc x = (if 0 \<le> x then \<lfloor>x\<rfloor> else \<lceil>x\<rceil>)"

definition c_int_cast :: "real option \<Rightarrow> int" where
  "c_int_cast d =
     (case d of
        None \<Rightarrow> - 2147483648
      | Some x \<Rightarrow> if c_int_range (c_trunc x) then c_trunc x else - 2147483648)"

section \<open>Scoreboard operations\<close>

text \<open>\<^verbatim>\<open>_total_seconds(td)\<close>, and \<^verbatim>\<open>td.total_seconds()\<close> of Python, which agrees with it.\<close>

definition total_seconds :: "timedelta \<Rightarrow> real" where
  "total_seconds td =
     real_of_int (days td) * 86400 + real_of_int (seconds td)
       + real_of_int (microseconds td) / 1000000"

definition date_to_idx_fast :: "datetime \<Rightarrow> datetime \<Rightarrow> int \<Rightarrow> int \<Rightarrow> bool \<Rightarrow> int" where
  "date_to_idx_fast date start_date resolution sz force_into_project =
     (let diff_seconds = total_seconds (dt_minus date start_date);
          idx = c_int_cast (double_div diff_seconds (real_of_int resolution))
      in if force_into_project then
           if idx < 0 then 0
           else if idx \<ge> sz then c_int (sz - 1)
           else idx
         else idx)"

definition idx_to_date_fast ::
  "int \<Rightarrow> datetime \<Rightarrow> int \<Rightarrow> int \<Rightarrow> bool \<Rightarrow> datetime \<Rightarrow> datetime" where
  "idx_to_date_fast idx start_date resolution sz force_into_project end_date =
     (if force_into_project \<and> idx < 0 then start_date
      else if force_into_project \<and> idx \<ge> sz then end_date
      else
        let secs = c_int (idx * resolution)
        in dt_plus start_date (timedelta_of_seconds secs))"

text \<open>
  The scan of \<^verbatim>\<open>collect_intervals_fast\<close>. The scoreboard is a Python list whose slots may
  hold \<open>None\<close>; the predicate is a pure function of the slot's value. The loop state is
  \<open>idx\<close>, \<open>start\<close>, \<open>duration\<close> and the list collected so far, here of the index pairs
  \<open>(start, current_idx)\<close> from which the source builds each interval. With
  \<^verbatim>\<open>boundscheck=False\<close> and \<^verbatim>\<open>wraparound=False\<close> the read \<^verbatim>\<open>sb[idx]\<close> at a negative
  \<open>idx\<close> is a read outside the list: the scan has no result then (\<open>None\<close>).
\<close>

function collect_loop ::
  "'a option list \<Rightarrow> ('a option \<Rightarrow> bool) \<Rightarrow> int \<Rightarrow> int \<Rightarrow> int \<Rightarrow> int
     \<Rightarrow> int \<Rightarrow> int \<Rightarrow> int \<Rightarrow> (int \<times> int) list \<Rightarrow> (int \<times> int) list option" where
  "collect_loop sb predicate end_idx s_idx e_idx min_duration_slots idx start duration intervals =
     (if idx \<le> end_idx then
        if idx < 0 then None
        else
          let val = (if idx < int (length sb) then sb ! nat idx else None);
              pred_result = (if idx < end_idx then predicate val else False)
          in if pred_result then
               collect_loop sb predicate end_idx s_idx e_idx min_duration_slots (idx + 1)
                 (if start = 0 then idx else start) (duration + 1) intervals
             else if duration > 0 then
               collect_loop sb predicate end_idx s_idx e_idx min_duration_slots (idx + 1) 0 0
                 (if duration \<ge> min_duration_slots then
                    intervals @ [(if start < s_idx then s_idx else start,
                                  if idx > e_idx then e_idx else idx)]
                  else intervals)
             else
               collect_loop sb predicate end_idx s_idx e_idx min_duration_slots (idx + 1)
                 start duration intervals
      else Some intervals)"
  by pat_completeness auto
termination
  by (relation "measure (\<lambda>(sb, predicate, end_idx, s_idx, e_idx, min_duration_slots, idx, rest).
        nat (end_idx + 1 - idx))") auto

declare collect_loop.simps [simp del]

text \<open>
  The interval built from an index pair, \<^verbatim>\<open>interval_class(start_dt, end_dt)\<close>: the offsets
  \<^verbatim>\<open>start * resolution\<close> and \<^verbatim>\<open>current_idx * resolution\<close> are products of C \<open>int\<close>s.
\<close>

definition make_interval :: "datetime \<Rightarrow> int \<Rightarrow> int \<times> int \<Rightarrow> datetime \<times> datetime" where
  "make_interval start_date resolution p =
     (dt_plus start_date (timedelta_of_seconds (c_int (fst p * resolution))),
      dt_plus start_date (timedelta_of_seconds (c_int (snd p * resolution))))"

definition collect_intervals_fast ::
  "'a option list \<Rightarrow> int \<Rightarrow> int \<Rightarrow> int \<Rightarrow> int \<Rightarrow> int \<Rightarrow> int \<Rightarrow> datetime \<Rightarrow> int
     \<Rightarrow> ('a option \<Rightarrow> bool) \<Rightarrow> (datetime \<times> datetime) list option" where
  "collect_intervals_fast sb start_idx end_idx s_idx e_idx min_duration_slots sz start_date
       resolution predicate =
     map_option (map (make_interval start_date resolution))
       (collect_loop sb predicate end_idx s_idx e_idx min_duration_slots start_idx 0 0 [])"

section \<open>Working hours\<close>

text \<open>
  An interval is \<open>((start_h, start_m), (end_h, end_m))\<close>; the weekly template is a dict
  from the weekday to the list of its intervals.
\<close>

type_synonym interval = "(int \<times> int) \<times> (int \<times> int)"
type_synonym hours_dict = "int \<rightharpoonup> interval list"

definition start_minutes :: "interval \<Rightarrow> int" where
  "start_minutes iv = fst (fst iv) * 60 + snd (fst iv)"

definition end_minutes :: "interval \<Rightarrow> int" where
  "end_minutes iv = fst (snd iv) * 60 + snd (snd iv)"

text \<open>The loop over the intervals of the slot's own weekday; it returns at the first hit.\<close>

fun check_day :: "int \<Rightarrow> interval list \<Rightarrow> bool" where
  "check_day slot_minutes [] = False"
| "check_day slot_minutes (interval # rest) =
     (if end_minutes interval \<le> start_minutes interval then
        if slot_minutes \<ge> start_minutes interval \<or> slot_minutes < end_minutes interval then True
        else check_day slot_minutes rest
      else
        if start_minutes interval \<le> slot_minutes \<and> slot_minutes < end_minutes interval then True
        else check_day slot_minutes rest)"

text \<open>The loop over the intervals of the previous weekday.\<close>

fun check_prev_day :: "int \<Rightarrow> interval list \<Rightarrow> bool" where
  "check_prev_day slot_minutes [] = False"
| "check_prev_day slot_minutes (interval # rest) =
     (if end_minutes interval \<le> start_minutes interval \<and> slot_minutes < end_minutes interval
      then True
      else check_prev_day slot_minutes rest)"

text \<open>
  The part of the function after the first \<^verbatim>\<open>if\<close>/\<^verbatim>\<open>else\<close>: \<^verbatim>\<open>(weekday - 1) % 7\<close> is on
  C \<open>int\<close>s under \<^verbatim>\<open>cdivision=True\<close>, hence \<open>smod\<close>.
\<close>

definition check_cross_midnight_part :: "int \<Rightarrow> int \<Rightarrow> hours_dict \<Rightarrow> bool \<Rightarrow> bool" where
  "check_cross_midnight_part slot_minutes weekday hours_dict check_cross_midnight =
     (if check_cross_midnight then
        let prev_weekday = (weekday - 1) smod 7
        in case hours_dict prev_weekday of
             None \<Rightarrow> False
           | Some intervals \<Rightarrow> check_prev_day slot_minutes intervals
      else False)"

definition check_working_hours_fast :: "int \<Rightarrow> int \<Rightarrow> hours_dict \<Rightarrow> bool \<Rightarrow> bool" where
  "check_working_hours_fast slot_minutes weekday hours_dict check_cross_midnight =
     (case hours_dict weekday of
        None \<Rightarrow>
          if \<not> check_cross_midnight then False
          else check_cross_midnight_part slot_minutes weekday hours_dict check_cross_midnight
      | Some intervals \<Rightarrow>
          if intervals = [] then
            if \<not> check_cross_midnight then False
            else check_cross_midnight_part slot_minutes weekday hours_dict check_cross_midnight
          else if check_day slot_minutes intervals then True
          else check_cross_midnight_part slot_minutes weekday hours_dict check_cross_midnight)"



section \<open>Time utilities\<close>

text \<open>
  In \<^verbatim>\<open>project_date_to_idx\<close> and \<^verbatim>\<open>scoreboard_size\<close> the branch
  \<^verbatim>\<open>except AttributeError\<close> serves arguments that are plain numbers, whose difference has no
  \<^verbatim>\<open>total_seconds\<close>; on datetimes it is never taken.
\<close>

definition project_date_to_idx :: "datetime \<Rightarrow> datetime option \<Rightarrow> int \<Rightarrow> int" where
  "project_date_to_idx date start granularity =
     (case start of
        None \<Rightarrow> 0
      | Some s \<Rightarrow>
          let diff_seconds = total_seconds (dt_minus date s)
          in c_int_cast (double_div diff_seconds (real_of_int granularity)))"

definition project_idx_to_date :: "int \<Rightarrow> datetime option \<Rightarrow> int \<Rightarrow> datetime option" where
  "project_idx_to_date idx start granularity =
     (case start of
        None \<Rightarrow> None
      | Some s \<Rightarrow>
          let secs = c_int (idx * granularity)
          in Some (dt_plus s (timedelta_of_seconds secs)))"

definition scoreboard_size :: "datetime option \<Rightarrow> datetime option \<Rightarrow> int \<Rightarrow> int" where
  "scoreboard_size start end_date granularity =
     (case (start, end_date) of
        (Some s, Some e) \<Rightarrow>
          let diff_seconds = total_seconds (dt_minus e s)
          in c_int (c_int_cast (double_div diff_seconds (real_of_int granularity)) + 1)
      | _ \<Rightarrow> 0)"

definition is_working_time_fast :: "int \<Rightarrow> datetime option \<Rightarrow> int \<Rightarrow> int \<Rightarrow> int \<Rightarrow> bool" where
  "is_working_time_fast slot_idx start granularity daily_start_hour daily_end_hour =
     (case start of
        None \<Rightarrow> False
      | Some s \<Rightarrow>
          let secs = c_int (slot_idx * granularity);
              dt = dt_plus s (timedelta_of_seconds secs);
              weekday = dt_weekday dt
          in if weekday \<ge> 5 then False
             else let hour = dt_hour dt
                  in if hour < daily_start_hour \<or> hour \<ge> daily_end_hour then False
                     else True)"

section \<open>Notions used in the statements\<close>

text \<open>
  The predicate on the value of slot \<open>k\<close>, which is \<open>None\<close> beyond the list.
\<close>

definition slot_satisfies :: "'a option list \<Rightarrow> ('a option \<Rightarrow> bool) \<Rightarrow> int \<Rightarrow> bool" where
  "slot_satisfies sb predicate k = predicate (if k < int (length sb) then sb ! nat k else None)"

text \<open>
  What the scan sees at slot \<open>k\<close>: \<open>pred_result\<close>, which is the predicate on the slot's
  value (\<open>None\<close> beyond the list) below \<open>end_idx\<close> and false at \<open>end_idx\<close>.
\<close>

definition slot_matches :: "'a option list \<Rightarrow> ('a option \<Rightarrow> bool) \<Rightarrow> int \<Rightarrow> int \<Rightarrow> bool" where
  "slot_matches sb predicate end_idx k =
     (k < end_idx \<and> predicate (if k < int (length sb) then sb ! nat k else None))"

text \<open>
  A maximal run \<open>a..b\<close> of matching slots of the scan from \<open>start_idx\<close>: every slot of
  it matches, the slot before it does not (or the scan starts at \<open>a\<close>), the slot after it
  does not.
\<close>

definition is_run ::
  "'a option list \<Rightarrow> ('a option \<Rightarrow> bool) \<Rightarrow> int \<Rightarrow> int \<Rightarrow> int \<Rightarrow> int \<Rightarrow> bool" where
  "is_run sb predicate start_idx end_idx a b =
     (start_idx \<le> a \<and> a \<le> b
      \<and> (\<forall>k \<in> {a..b}. slot_matches sb predicate end_idx k)
      \<and> (a = start_idx \<or> \<not> slot_matches sb predicate end_idx (a - 1))
      \<and> \<not> slot_matches sb predicate end_idx (b + 1))"

text \<open>
  The start the scan records for the run \<open>a..b\<close>: \<open>start\<close> is also the flag "no run
  open" when it is 0, so a run that begins at slot 0 has its start taken again at slot 1.
\<close>

definition recorded_start :: "int \<Rightarrow> int \<Rightarrow> int" where
  "recorded_start a b = (if a = 0 \<and> 0 < b then 1 else a)"

text \<open>
  The loop invariant of the scan at \<open>idx\<close>: with no run open, \<open>start\<close> is 0 and the slot
  before \<open>idx\<close> did not match; with a run of \<open>duration\<close> slots open, these are the slots
  just before \<open>idx\<close>, they match, the run cannot be extended to the left, and \<open>start\<close> is
  its recorded start.
\<close>

definition open_run ::
  "'a option list \<Rightarrow> ('a option \<Rightarrow> bool) \<Rightarrow> int \<Rightarrow> int \<Rightarrow> int \<Rightarrow> int \<Rightarrow> int \<Rightarrow> bool" where
  "open_run sb P start_idx end_idx idx start duration =
     (if duration = 0 then
        start = 0 \<and> (idx = start_idx \<or> \<not> slot_matches sb P end_idx (idx - 1))
      else 0 < duration \<and> start_idx \<le> idx - duration
        \<and> (\<forall>k \<in> {idx - duration..<idx}. slot_matches sb P end_idx k)
        \<and> (idx - duration = start_idx \<or> \<not> slot_matches sb P end_idx (idx - duration - 1))
        \<and> start = recorded_start (idx - duration) (idx - 1))"

text \<open>
  A collected index pair that comes from a maximal run of at least \<open>mn\<close> slots: the
  run's recorded start raised to \<open>s_idx\<close>, and the slot after the run lowered to \<open>e_idx\<close>.
\<close>

definition from_run ::
  "'a option list \<Rightarrow> ('a option \<Rightarrow> bool) \<Rightarrow> int \<Rightarrow> int \<Rightarrow> int \<Rightarrow> int \<Rightarrow> int \<Rightarrow> int \<times> int \<Rightarrow> bool" where
  "from_run sb P start_idx end_idx s_idx e_idx mn p =
     (\<exists>a b. is_run sb P start_idx end_idx a b \<and> mn \<le> b - a + 1
        \<and> fst p = max (recorded_start a b) s_idx \<and> snd p = min (b + 1) e_idx)"



section \<open>Facts about the time model\<close>

lemma total_seconds_dt_minus: "total_seconds (dt_minus a b) = real_of_int (a - b)"
proof -
  define d where "d = a - b"
  have "real_of_int (d div 86400) * 86400 + real_of_int (d mod 86400)
      = real_of_int (d div 86400 * 86400 + d mod 86400)"
    by (simp only: of_int_add of_int_mult of_int_numeral)
  also have "\<dots> = real_of_int d"
    by (simp only: div_mult_mod_eq)
  finally show ?thesis
    by (simp add: total_seconds_def dt_minus_def timedelta_of_seconds_def d_def)
qed

lemma dt_plus_seconds: "dt_plus a (timedelta_of_seconds s) = a + s"
  by (simp add: dt_plus_def timedelta_of_seconds_def)

lemma c_int_in_range: "c_int_range x \<Longrightarrow> c_int x = x"
  by (simp add: c_int_range_def c_int_def)

lemma c_int_range_c_int: "c_int_range (c_int x)"
  by (simp add: c_int_range_def c_int_def)


lemma floor_quotient: "\<lfloor>real_of_int a / real_of_int r\<rfloor> = a div r"
  by (rule floor_divide_of_int_eq)

lemma ceiling_quotient: "\<lceil>real_of_int a / real_of_int r\<rceil> = - ((- a) div r)"
proof -
  have "real_of_int a / real_of_int r = - (real_of_int (- a) / real_of_int r)"
    unfolding minus_divide_left by simp
  then have "\<lceil>real_of_int a / real_of_int r\<rceil> = - \<lfloor>real_of_int (- a) / real_of_int r\<rfloor>"
    by (simp only: ceiling_minus)
  then show ?thesis
    by (simp only: floor_divide_of_int_eq)
qed

lemma c_trunc_quotient:
  assumes "0 < r"
  shows "c_trunc (real_of_int a / real_of_int r) = (if 0 \<le> a then a div r else - ((- a) div r))"
proof (cases "0 \<le> a")
  case True
  with assms have "0 \<le> real_of_int a / real_of_int r" by simp
  with True show ?thesis
    by (simp add: c_trunc_def floor_quotient)
next
  case False
  with assms have neg: "real_of_int a / real_of_int r < 0"
    by (simp add: divide_neg_pos)
  with False show ?thesis
    by (simp add: c_trunc_def ceiling_quotient)
qed

lemma neg_div_cases:
  assumes "0 < (r::int)"
  shows "(- a) div r = (if r dvd a then - (a div r) else - (a div r) - 1)"
  using assms by (simp add: zdiv_zminus1_eq_if dvd_eq_mod_eq_0)

lemma date_to_idx_fast_cast:
  "date_to_idx_fast t S r n False = c_int_cast (double_div (real_of_int (t - S)) (real_of_int r))"
  by (simp add: date_to_idx_fast_def total_seconds_dt_minus)

lemma date_to_idx_fast_raw:
  assumes "0 < r" and "c_int_range (c_trunc (real_of_int (t - S) / real_of_int r))"
  shows "date_to_idx_fast t S r n False = (if S \<le> t then (t - S) div r else - ((S - t) div r))"
  using assms c_trunc_quotient [OF assms(1), of "t - S"]
  by (simp add: date_to_idx_fast_cast double_div_def c_int_cast_def)

lemma project_date_to_idx_raw:
  "project_date_to_idx t (Some S) r = date_to_idx_fast t S r n False"
  by (simp add: project_date_to_idx_def date_to_idx_fast_def)

lemma scoreboard_size_raw:
  assumes "0 < r" and "S \<le> E" and "(E - S) div r < 2147483647"
  shows "scoreboard_size (Some S) (Some E) r = (E - S) div r + 1"
proof -
  have q: "c_trunc (real_of_int (E - S) / real_of_int r) = (E - S) div r"
    using c_trunc_quotient [OF assms(1), of "E - S"] assms(2) by simp
  have nonneg: "0 \<le> (E - S) div r"
    using assms(1,2) by (simp add: pos_imp_zdiv_nonneg_iff)
  with assms(3) have rng: "c_int_range ((E - S) div r)" and rng1: "c_int_range ((E - S) div r + 1)"
    by (simp_all add: c_int_range_def)
  have "c_int_cast (double_div (real_of_int (E - S)) (real_of_int r)) = (E - S) div r"
    using assms(1) q rng by (simp add: double_div_def c_int_cast_def)
  then show ?thesis
    using c_int_in_range [OF rng1]
    by (simp add: scoreboard_size_def total_seconds_dt_minus)
qed

section \<open>Clamping of the index\<close>




section \<open>Rounding of the index and of the size\<close>

text \<open>
  Claim C3 says that the unclamped index is \<open>floor ((t - S) / r)\<close> for every instant,
  rounding downwards also before the project start. Both conversions cast the quotient
  with \<^verbatim>\<open><int>\<close>, which rounds towards zero: one second before the start of a project
  with hourly slots the index is 0, where the floor is \<open>-1\<close>.
\<close>

theorem date_to_idx_floor_counterexample:
  "date_to_idx_fast 63871718399 63871718400 3600 24 False = 0
   \<and> project_date_to_idx 63871718399 (Some 63871718400) 3600 = 0
   \<and> \<lfloor>real_of_int (63871718399 - 63871718400) / real_of_int 3600\<rfloor> = - 1"
proof -
  have "date_to_idx_fast 63871718399 63871718400 3600 24 False = 0"
    by (rule trans [OF date_to_idx_fast_raw]) (simp_all add: c_trunc_def c_int_range_def)
  then show ?thesis
    using project_date_to_idx_raw [of 63871718399 63871718400 3600 24]
      floor_quotient [of "63871718399 - 63871718400" 3600]
    by simp
qed

text \<open>
  Claim C3, amended. For a positive resolution \<open>r\<close> and an instant \<open>t\<close> whose quotient
  \<open>(t - S) / r\<close>, truncated, fits a C \<open>int\<close> (from \<open>- 2 ^ 31\<close> to \<open>2 ^ 31 - 1\<close>), the
  unclamped index of \<open>date_to_idx_fast\<close>, and of \<open>project_date_to_idx\<close>, is that quotient
  rounded towards zero: \<open>floor ((t - S) / r)\<close> from the project start on, and
  \<open>ceiling ((t - S) / r) = - floor ((S - t) / r)\<close> before it. It is the floor exactly
  when \<open>t\<close> is not before \<open>S\<close> or \<open>r\<close> divides \<open>S - t\<close>.
\<close>

theorem date_to_idx_rounds_to_zero:
  assumes "0 < r" and "c_int_range (c_trunc (real_of_int (t - S) / real_of_int r))"
  shows "date_to_idx_fast t S r n False
           = (if S \<le> t then \<lfloor>real_of_int (t - S) / real_of_int r\<rfloor>
              else \<lceil>real_of_int (t - S) / real_of_int r\<rceil>)
    \<and> project_date_to_idx t (Some S) r = date_to_idx_fast t S r n False
    \<and> date_to_idx_fast t S r n False
           = (if S \<le> t then (t - S) div r else - ((S - t) div r))
    \<and> (date_to_idx_fast t S r n False = \<lfloor>real_of_int (t - S) / real_of_int r\<rfloor>
          \<longleftrightarrow> S \<le> t \<or> r dvd (S - t))"
proof -
  have raw: "date_to_idx_fast t S r n False = (if S \<le> t then (t - S) div r else - ((S - t) div r))"
    using date_to_idx_fast_raw [OF assms] .
  have fl: "\<lfloor>real_of_int (t - S) / real_of_int r\<rfloor> = (t - S) div r"
    by (rule floor_quotient)
  have ce: "\<lceil>real_of_int (t - S) / real_of_int r\<rceil> = - ((S - t) div r)"
    using ceiling_quotient [of "t - S" r] by simp
  have iff: "(- ((S - t) div r) = (t - S) div r) \<longleftrightarrow> r dvd (S - t)"
  proof -
    have "(t - S) div r = (- (S - t)) div r" by simp
    also have "\<dots> = (if r dvd (S - t) then - ((S - t) div r) else - ((S - t) div r) - 1)"
      by (rule neg_div_cases [OF assms(1)])
    finally show ?thesis by simp
  qed
  show ?thesis
    using raw fl ce iff project_date_to_idx_raw [of t S r n] by auto
qed

theorem date_to_idx_rounds_to_zero_witness:
  "date_to_idx_fast 63871714799 63871718400 3600 24 False = - 1
   \<and> project_date_to_idx 63871714799 (Some 63871718400) 3600 = - 1
   \<and> \<lceil>real_of_int (63871714799 - 63871718400) / real_of_int 3600\<rceil> = - 1"
proof -
  have rng: "c_int_range (c_trunc (real_of_int (63871714799 - 63871718400) / real_of_int 3600))"
    by (simp add: c_trunc_def c_int_range_def)
  show ?thesis
    using date_to_idx_rounds_to_zero [OF _ rng, of 24] ceiling_quotient [of "63871714799 - 63871718400" 3600]
    by simp
qed

text \<open>
  Claim C5 says that the size is \<open>ceiling ((E - S) / r) + 1\<close> also when \<open>E - S\<close> is not a
  multiple of \<open>r\<close>. \<open>scoreboard_size\<close> casts the quotient with \<^verbatim>\<open><int>\<close>: a project of
  an hour and a half with hourly slots has size 2, where the claim gives 3.
\<close>

theorem scoreboard_size_ceil_counterexample:
  "scoreboard_size (Some 63871718400) (Some 63871723800) 3600 = 2
   \<and> \<lceil>real_of_int (63871723800 - 63871718400) / real_of_int 3600\<rceil> + 1 = 3"
  using scoreboard_size_raw [of 3600 63871718400 63871723800]
    ceiling_quotient [of "63871723800 - 63871718400" 3600]
  by simp

text \<open>
  Claim C5, amended. For \<open>S \<le> E\<close>, a positive resolution \<open>r\<close> and a quotient
  \<open>floor ((E - S) / r)\<close> below \<open>2 ^ 31 - 1\<close>, so that the size fits a C \<open>int\<close>, the size is
  \<open>floor ((E - S) / r) + 1\<close>. That is \<open>ceiling ((E - S) / r) + 1\<close> when \<open>r\<close> divides
  \<open>E - S\<close>, and \<open>ceiling ((E - S) / r)\<close>, one slot less, when it does not.
\<close>

theorem scoreboard_size_floor:
  assumes "S \<le> E" and "0 < r" and "(E - S) div r < 2147483647"
  shows "scoreboard_size (Some S) (Some E) r = \<lfloor>real_of_int (E - S) / real_of_int r\<rfloor> + 1
    \<and> (r dvd (E - S) \<longrightarrow>
          scoreboard_size (Some S) (Some E) r = \<lceil>real_of_int (E - S) / real_of_int r\<rceil> + 1)
    \<and> (\<not> r dvd (E - S) \<longrightarrow>
          scoreboard_size (Some S) (Some E) r = \<lceil>real_of_int (E - S) / real_of_int r\<rceil>)"
  using scoreboard_size_raw [OF assms(2) assms(1) assms(3)] neg_div_cases [OF assms(2), of "E - S"]
  by (simp only: floor_quotient ceiling_quotient) simp

theorem scoreboard_size_floor_witness:
  "scoreboard_size (Some 63871718400) (Some 63871722001) 3600 = 2
   \<and> \<lceil>real_of_int (63871722001 - 63871718400) / real_of_int 3600\<rceil> = 2"
  using scoreboard_size_floor [of 63871718400 63871722001 3600]
  by simp

section \<open>Index and instant\<close>

text \<open>
  Claim C7 says that every slot index \<open>0 \<le> i < size\<close> is mapped to the project start plus
  \<open>i * resolution\<close> seconds. The offset is the product of two C \<open>int\<close>s, stored in a C
  \<open>int\<close>: for slot 1000000 of a scoreboard of 2000000 hourly slots the product
  3600000000 wraps around to \<open>-694967296\<close>, and both conversions return an instant 22
  years before the project start (2002-12-29 for a start on 2025-01-06), not the instant
  114 years after it.
\<close>

theorem idx_date_wraps_counterexample:
  "idx_to_date_fast 1000000 63871718400 3600 2000000 True 71071714800 = 63176751104
   \<and> project_idx_to_date 1000000 (Some 63871718400) 3600 = Some 63176751104
   \<and> 63871718400 + 1000000 * 3600 = (67471718400::int)"
  by (simp add: idx_to_date_fast_def project_idx_to_date_def dt_plus_seconds c_int_def)

text \<open>
  Claim C7, amended. For a slot index \<open>0 \<le> i < n\<close> of a scoreboard of size \<open>n\<close>, a positive
  resolution \<open>r\<close> and an offset \<open>i * r\<close> below \<open>2 ^ 31\<close> seconds, \<open>idx_to_date_fast\<close> (with
  or without clamping) and \<open>project_idx_to_date\<close> return the project start plus \<open>i * r\<close>
  seconds, and the unclamped index conversions map that instant back to \<open>i\<close>.
\<close>

theorem idx_date_round_trip:
  assumes "0 \<le> i" and "i < n" and "0 < r" and "i * r < 2147483648"
  shows "idx_to_date_fast i S r n clamp E = S + i * r
    \<and> project_idx_to_date i (Some S) r = Some (S + i * r)
    \<and> date_to_idx_fast (idx_to_date_fast i S r n clamp E) S r n False = i
    \<and> project_date_to_idx (S + i * r) (Some S) r = i"
proof -
  have "0 \<le> i * r" using assms(1,3) by simp
  with assms(4) have "c_int_range (i * r)" by (simp add: c_int_range_def)
  then have prod: "c_int (i * r) = i * r" by (rule c_int_in_range)
  have "i * 1 \<le> i * r" using assms(1,3) by (intro mult_left_mono) simp_all
  with assms(1,4) have irange: "c_int_range i" by (simp add: c_int_range_def)
  have q: "c_trunc (real_of_int (S + i * r - S) / real_of_int r) = i"
    using c_trunc_quotient [OF assms(3), of "i * r"] assms(1,3) by simp
  have d: "idx_to_date_fast i S r n clamp E = S + i * r"
    using assms(1,2) prod by (simp add: idx_to_date_fast_def dt_plus_seconds)
  have "date_to_idx_fast (S + i * r) S r n False = i"
    using date_to_idx_fast_raw [OF assms(3), of "S + i * r" S n] q irange assms(1,3)
    by simp
  moreover have "project_date_to_idx (S + i * r) (Some S) r = date_to_idx_fast (S + i * r) S r n False"
    by (rule project_date_to_idx_raw)
  moreover have "project_idx_to_date i (Some S) r = Some (S + i * r)"
    using prod by (simp add: project_idx_to_date_def dt_plus_seconds)
  ultimately show ?thesis using d by simp
qed

theorem idx_date_round_trip_witness:
  "idx_to_date_fast 5 63871718400 3600 24 True 63871804800 = 63871736400
    \<and> project_idx_to_date 5 (Some 63871718400) 3600 = Some 63871736400
    \<and> date_to_idx_fast 63871736400 63871718400 3600 24 False = 5
    \<and> project_date_to_idx 63871736400 (Some 63871718400) 3600 = 5"
  using idx_date_round_trip [of 5 24 3600 63871718400 True 63871804800]
  by auto

section \<open>The default calendar\<close>

lemma slot_datetime:
  assumes "c_int_range (i * g)"
  shows "is_working_time_fast i (Some s) g a b \<longleftrightarrow>
     dt_weekday (s + i * g) < 5 \<and> a \<le> dt_hour (s + i * g) \<and> dt_hour (s + i * g) < b"
  using c_int_in_range [OF assms]
  by (auto simp add: is_working_time_fast_def Let_def dt_plus_seconds)

lemma dt_weekday_range: "0 \<le> dt_weekday t \<and> dt_weekday t \<le> 6"
  by (simp add: dt_weekday_def)

text \<open>
  Claim C9 says that the answer follows the weekday and the hour of the slot. The offset of
  the slot is the product \<open>slot_idx * granularity\<close> stored in a C \<open>int\<close>: slot 1000000 of
  hourly slots from Monday 2025-01-06 00:00 falls on a Wednesday at 16:00, inside the
  hours 0 to 24, but the product wraps around, the function looks at Sunday 2002-12-29
  and answers \<open>False\<close>.
\<close>

theorem slot_offset_wraps_counterexample:
  "\<not> is_working_time_fast 1000000 (Some 63871718400) 3600 0 24
   \<and> dt_weekday (63871718400 + 1000000 * 3600) = 2
   \<and> 0 \<le> dt_hour (63871718400 + 1000000 * 3600)
   \<and> dt_hour (63871718400 + 1000000 * 3600) < 24"
  by (simp add: is_working_time_fast_def dt_plus_seconds c_int_def dt_weekday_def dt_hour_def)

text \<open>
  Claim C9, amended. \<open>is_working_time_fast\<close> is false when the project start is \<open>None\<close>.
  For slots whose offset \<open>slot_idx * granularity\<close> fits a C \<open>int\<close> it depends only on the
  weekday and the hour of the slot's instant: it is true exactly when the weekday is
  Monday to Friday and \<open>daily_start_hour \<le> hour < daily_end_hour\<close>, false on every
  Saturday and Sunday, and two slots with the same weekday and the same hour get the same
  answer whatever their minutes.
\<close>

theorem is_working_time_fast_weekday_hour:
  assumes "c_int_range (i * g)" and "c_int_range (i' * g')"
  shows "\<not> is_working_time_fast i None g a b
   \<and> (is_working_time_fast i (Some s) g a b \<longleftrightarrow>
        dt_weekday (s + i * g) \<in> {0, 1, 2, 3, 4}
        \<and> a \<le> dt_hour (s + i * g) \<and> dt_hour (s + i * g) < b)
   \<and> (dt_weekday (s + i * g) \<in> {5, 6} \<longrightarrow> \<not> is_working_time_fast i (Some s) g a b)
   \<and> (dt_weekday (s + i * g) = dt_weekday (s' + i' * g') \<and>
       dt_hour (s + i * g) = dt_hour (s' + i' * g') \<longrightarrow>
        is_working_time_fast i (Some s) g a b = is_working_time_fast i' (Some s') g' a b)"
proof -
  have rng: "dt_weekday (s + i * g) \<in> {0, 1, 2, 3, 4} \<longleftrightarrow> dt_weekday (s + i * g) < 5"
    using dt_weekday_range [of "s + i * g"] by auto
  have "\<not> is_working_time_fast i None g a b"
    by (simp add: is_working_time_fast_def)
  then show ?thesis
    unfolding rng slot_datetime [OF assms(1)] slot_datetime [OF assms(2)] by auto
qed

theorem is_working_time_fast_weekday_hour_witness:
  "is_working_time_fast 9 (Some 63871718400) 3600 9 17
   \<and> is_working_time_fast 39 (Some 63871718400) 900 9 17
   \<and> \<not> is_working_time_fast 129 (Some 63871718400) 3600 9 17
   \<and> dt_weekday (63871718400 + 129 * 3600) = 5"
proof -
  have a: "c_int_range (9 * 3600)" and b: "c_int_range (39 * 900)" and c: "c_int_range (129 * 3600)"
    by (simp_all add: c_int_range_def)
  show ?thesis
    using is_working_time_fast_weekday_hour [OF a b, of 9 17 63871718400 63871718400]
      is_working_time_fast_weekday_hour [OF c b, of 9 17 63871718400 63871718400]
    by (auto simp add: dt_weekday_def dt_hour_def)
qed

section \<open>The working-hours check\<close>

lemma prev_weekday_other:
  assumes "1 \<le> d" and "d \<le> 6"
  shows "(d - 1) smod 7 = d - (1::int)"
  using assms by (simp add: signed_modulo_int_def sgn_if)

lemma prev_weekday_range:
  assumes "0 \<le> d" and "d \<le> 6"
  shows "(d - 1) smod 7 = (if d = 0 then - 1 else d - (1::int))"
  using assms by (auto simp add: signed_modulo_int_def sgn_if)

lemma check_prev_day_iff:
  "check_prev_day m ivs \<longleftrightarrow>
     (\<exists>iv \<in> set ivs. end_minutes iv \<le> start_minutes iv \<and> m < end_minutes iv)"
  by (induction ivs) auto

lemma check_day_iff:
  "check_day m ivs \<longleftrightarrow>
     (\<exists>iv \<in> set ivs.
        if end_minutes iv \<le> start_minutes iv then m \<ge> start_minutes iv \<or> m < end_minutes iv
        else start_minutes iv \<le> m \<and> m < end_minutes iv)"
  by (induction ivs) auto

text \<open>
  Claim C1, amended. Let the template hold one entry, weekday \<open>d\<close> in \<open>0..6\<close> with the single
  cross-midnight interval \<open>((sh, sm), (eh, em))\<close>, \<open>eh * 60 + em \<le> sh * 60 + sm\<close>. On day
  \<open>d\<close> itself the check reports minute \<open>m\<close> working exactly when \<open>m \<ge> sh * 60 + sm\<close> or
  \<open>m < eh * 60 + em\<close>, with either value of \<open>check_cross_midnight\<close>: the small hours of day
  \<open>d\<close> count as well as its evening. For \<open>d\<close> from Monday to Saturday, on day \<open>d + 1\<close> it
  reports working exactly when \<open>m < eh * 60 + em\<close> if \<open>check_cross_midnight\<close> is true, and
  never if it is false. On every weekday other than \<open>d\<close> and \<open>(d + 1) mod 7\<close> it reports
  not working. (Nothing is said here of Monday for an interval on Sunday.)
\<close>

theorem cross_midnight_single_interval:
  assumes "0 \<le> d" and "d \<le> 6" and "eh * 60 + em \<le> sh * 60 + sm"
  shows "(check_working_hours_fast m d [d \<mapsto> [((sh, sm), (eh, em))]] ccm
            \<longleftrightarrow> m \<ge> sh * 60 + sm \<or> m < eh * 60 + em)
    \<and> (d \<le> 5 \<longrightarrow>
         (check_working_hours_fast m (d + 1) [d \<mapsto> [((sh, sm), (eh, em))]] True
            \<longleftrightarrow> m < eh * 60 + em))
    \<and> \<not> check_working_hours_fast m (d + 1) [d \<mapsto> [((sh, sm), (eh, em))]] False
    \<and> (\<forall>e. 0 \<le> e \<and> e \<le> 6 \<and> e \<noteq> d \<and> e \<noteq> (d + 1) mod 7
           \<longrightarrow> \<not> check_working_hours_fast m e [d \<mapsto> [((sh, sm), (eh, em))]] ccm)"
proof -
  let ?hd = "[d \<mapsto> [((sh, sm), (eh, em))]]"
  have prev_d: "?hd ((d - 1) smod 7) = None"
    using assms(1,2) by (simp add: prev_weekday_range)
  have a: "check_working_hours_fast m d ?hd ccm \<longleftrightarrow> m \<ge> sh * 60 + sm \<or> m < eh * 60 + em"
    using assms(3) prev_d
    by (simp add: check_working_hours_fast_def check_cross_midnight_part_def
        start_minutes_def end_minutes_def)
  have b: "check_working_hours_fast m (d + 1) ?hd True \<longleftrightarrow> m < eh * 60 + em" if "d \<le> 5"
    using assms(1,3) that prev_weekday_other [of "d + 1"]
    by (simp add: check_working_hours_fast_def check_cross_midnight_part_def
        start_minutes_def end_minutes_def)
  have c: "\<not> check_working_hours_fast m (d + 1) ?hd False"
    by (simp add: check_working_hours_fast_def check_cross_midnight_part_def)
  have e: "\<not> check_working_hours_fast m e ?hd ccm"
    if "0 \<le> e" "e \<le> 6" "e \<noteq> d" "e \<noteq> (d + 1) mod 7" for e
  proof -
    have "(e - 1) smod 7 \<noteq> d"
      using that assms(1,2) prev_weekday_range [of e] by (auto split: if_splits)
    then show ?thesis
      using that
      by (simp add: check_working_hours_fast_def check_cross_midnight_part_def)
  qed
  show ?thesis using a b c e by blast
qed

theorem cross_midnight_single_interval_witness:
  "check_working_hours_fast 1380 0 [0 \<mapsto> [((22, 0), (6, 0))]] True
   \<and> check_working_hours_fast 300 1 [0 \<mapsto> [((22, 0), (6, 0))]] True
   \<and> \<not> check_working_hours_fast 720 0 [0 \<mapsto> [((22, 0), (6, 0))]] True
   \<and> \<not> check_working_hours_fast 300 3 [0 \<mapsto> [((22, 0), (6, 0))]] True"
  using cross_midnight_single_interval [of 0 6 0 22 0 1380 True]
    cross_midnight_single_interval [of 0 6 0 22 0 300 True]
    cross_midnight_single_interval [of 0 6 0 22 0 720 True]
  by simp

text \<open>
  Claim C1 says that on day \<open>d\<close> the slot is working exactly when \<open>m \<ge> sh * 60 + sm\<close>. With
  Monday 22:00 to 06:00 as the only interval, Monday 01:00 is reported working, although
  \<open>60 < 22 * 60\<close>: the loop over the day's own intervals accepts \<open>m < end_minutes\<close> too.
\<close>

theorem same_day_small_hours_counterexample:
  "check_working_hours_fast 60 0 [0 \<mapsto> [((22, 0), (6, 0))]] False
   \<and> \<not> (60 \<ge> (22::int) * 60 + 0)"
  by (simp add: check_working_hours_fast_def start_minutes_def end_minutes_def)

text \<open>
  Claim C6 at a failing input. Monday (0) has no entry, Sunday (6) has the interval 22:00 to
  06:00, and \<open>check_cross_midnight\<close> is true: Monday 01:00 lies before the end of Sunday's
  cross-midnight interval, so the claim gives \<open>True\<close>. The function looks up the key
  \<open>(0 - 1) % 7\<close>, which under \<^verbatim>\<open>cdivision=True\<close> is \<open>-1\<close> and not 6, finds no entry and
  returns \<open>False\<close>.
\<close>

theorem sunday_shift_monday_morning:
  "\<not> check_working_hours_fast 60 0 [6 \<mapsto> [((22, 0), (6, 0))]] True
   \<and> [6 \<mapsto> [((22, 0), (6, 0))]] (((0::int) - 1) mod 7) = Some [((22::int, 0::int), (6::int, 0::int))]
   \<and> end_minutes ((22, 0), (6, 0)) \<le> start_minutes ((22, 0), (6, 0))
   \<and> 60 < end_minutes ((22, 0), (6, 0))"
  by (simp add: check_working_hours_fast_def check_cross_midnight_part_def signed_modulo_int_def
      start_minutes_def end_minutes_def)

text \<open>
  For a weekday without an entry the result is decided by the entry of
  \<open>(weekday - 1) smod 7\<close>, which is the previous weekday from Tuesday to Sunday.
\<close>

lemma no_template_weekday:
  assumes "hours_dict d = None"
  shows "\<not> check_working_hours_fast m d hours_dict False"
    and "check_working_hours_fast m d hours_dict True \<longleftrightarrow>
      (\<exists>ivs. hours_dict ((d - 1) smod 7) = Some ivs
         \<and> (\<exists>iv \<in> set ivs. end_minutes iv \<le> start_minutes iv \<and> m < end_minutes iv))"
  using assms
  by (auto simp add: check_working_hours_fast_def check_cross_midnight_part_def
      check_prev_day_iff split: option.splits)

section \<open>Daily hours\<close>






section \<open>Collecting intervals\<close>

lemma collect_loop_done:
  "end_idx < idx \<Longrightarrow>
   collect_loop sb P end_idx s_idx e_idx mn idx start duration acc = Some acc"
  by (subst collect_loop.simps) simp

lemma collect_loop_step:
  assumes "0 \<le> idx" and "idx \<le> end_idx"
  shows "collect_loop sb P end_idx s_idx e_idx mn idx start duration acc =
     (if slot_matches sb P end_idx idx then
        collect_loop sb P end_idx s_idx e_idx mn (idx + 1)
          (if start = 0 then idx else start) (duration + 1) acc
      else if 0 < duration then
        collect_loop sb P end_idx s_idx e_idx mn (idx + 1) 0 0
          (if mn \<le> duration then acc @ [(max start s_idx, min idx e_idx)] else acc)
      else collect_loop sb P end_idx s_idx e_idx mn (idx + 1) start duration acc)"
  using assms
  by (subst collect_loop.simps) (simp add: slot_matches_def Let_def max_def min_def)

lemma open_run_extend:
  assumes "open_run sb P start_idx end_idx idx start duration"
    and "slot_matches sb P end_idx idx" and "start_idx \<le> idx" and "0 \<le> start_idx"
  shows "open_run sb P start_idx end_idx (idx + 1) (if start = 0 then idx else start) (duration + 1)"
proof (cases "duration = 0")
  case True
  with assms show ?thesis
    by (auto simp: open_run_def recorded_start_def)
next
  case False
  with assms(1) have d: "0 < duration" and lo: "start_idx \<le> idx - duration"
    and all: "\<forall>k \<in> {idx - duration..<idx}. slot_matches sb P end_idx k"
    and bd: "idx - duration = start_idx \<or> \<not> slot_matches sb P end_idx (idx - duration - 1)"
    and st: "start = recorded_start (idx - duration) (idx - 1)"
    by (simp_all add: open_run_def)
  have all': "\<forall>k \<in> {idx + 1 - (duration + 1)..<idx + 1}. slot_matches sb P end_idx k"
  proof
    fix k assume "k \<in> {idx + 1 - (duration + 1)..<idx + 1}"
    then have "k \<in> {idx - duration..<idx} \<or> k = idx" by auto
    with all assms(2) show "slot_matches sb P end_idx k" by auto
  qed
  have st': "(if start = 0 then idx else start) = recorded_start (idx - duration) idx"
    using st d lo assms(4) by (auto simp: recorded_start_def)
  show ?thesis
    unfolding open_run_def using d lo all' bd st' by simp
qed

lemma open_run_close:
  assumes "open_run sb P start_idx end_idx idx start duration"
    and "0 < duration" and "\<not> slot_matches sb P end_idx idx" and "mn \<le> duration"
  shows "from_run sb P start_idx end_idx s_idx e_idx mn (max start s_idx, min idx e_idx)"
proof -
  from assms(1,2) have lo: "start_idx \<le> idx - duration"
    and all: "\<forall>k \<in> {idx - duration..<idx}. slot_matches sb P end_idx k"
    and bd: "idx - duration = start_idx \<or> \<not> slot_matches sb P end_idx (idx - duration - 1)"
    and st: "start = recorded_start (idx - duration) (idx - 1)"
    by (simp_all add: open_run_def)
  have "{idx - duration..idx - 1} = {idx - duration..<idx}" by auto
  with all have all': "\<forall>k \<in> {idx - duration..idx - 1}. slot_matches sb P end_idx k" by simp
  have run: "is_run sb P start_idx end_idx (idx - duration) (idx - 1)"
    unfolding is_run_def using lo assms(2,3) all' bd by simp
  show ?thesis
    unfolding from_run_def
    by (rule exI [of _ "idx - duration"], rule exI [of _ "idx - 1"])
      (use run st assms(4) in simp)
qed

lemma collect_loop_sound_gen:
  assumes "0 \<le> start_idx" and "start_idx \<le> idx"
    and "open_run sb P start_idx end_idx idx start duration"
    and "\<forall>p \<in> set acc. from_run sb P start_idx end_idx s_idx e_idx mn p"
  shows "\<exists>res. collect_loop sb P end_idx s_idx e_idx mn idx start duration acc = Some res
           \<and> (\<forall>p \<in> set res. from_run sb P start_idx end_idx s_idx e_idx mn p)"
  using assms(2-)
proof (induction "nat (end_idx + 1 - idx)" arbitrary: idx start duration acc)
  case 0
  then have "end_idx < idx" by simp
  then show ?case using "0.prems"(3) by (simp add: collect_loop_done)
next
  case (Suc n)
  then have le: "idx \<le> end_idx" and n: "n = nat (end_idx + 1 - (idx + 1))" by simp_all
  have nonneg: "0 \<le> idx" using assms(1) Suc.prems(1) by simp
  have next_lo: "start_idx \<le> idx + 1" using Suc.prems(1) by simp
  note step = collect_loop_step [OF nonneg le, of sb P s_idx e_idx mn start duration acc]
  show ?case
  proof (cases "slot_matches sb P end_idx idx")
    case True
    have "open_run sb P start_idx end_idx (idx + 1) (if start = 0 then idx else start) (duration + 1)"
      by (rule open_run_extend [OF Suc.prems(2) True Suc.prems(1) assms(1)])
    from Suc.hyps(1) [OF n next_lo this Suc.prems(3)] show ?thesis
      using step True by simp
  next
    case False
    show ?thesis
    proof (cases "0 < duration")
      case pos: True
      let ?acc = "if mn \<le> duration then acc @ [(max start s_idx, min idx e_idx)] else acc"
      have closed: "open_run sb P start_idx end_idx (idx + 1) 0 0"
        using False by (simp add: open_run_def)
      have "\<forall>p \<in> set ?acc. from_run sb P start_idx end_idx s_idx e_idx mn p"
        using Suc.prems(3) open_run_close [OF Suc.prems(2) pos False, of mn s_idx e_idx]
        by auto
      from Suc.hyps(1) [OF n next_lo closed this] show ?thesis
        using step False pos by simp
    next
      case zero: False
      with Suc.prems(2) have "duration = 0" and "start = 0"
        by (auto simp: open_run_def split: if_splits)
      then have "open_run sb P start_idx end_idx (idx + 1) start duration"
        using False by (simp add: open_run_def)
      from Suc.hyps(1) [OF n next_lo this Suc.prems(3)] show ?thesis
        using step False zero by simp
    qed
  qed
qed

lemma collect_loop_sound:
  assumes "0 \<le> start_idx"
  shows "\<exists>res. collect_loop sb P end_idx s_idx e_idx mn start_idx 0 0 [] = Some res
           \<and> (\<forall>p \<in> set res. from_run sb P start_idx end_idx s_idx e_idx mn p)"
  by (rule collect_loop_sound_gen [OF assms]) (simp_all add: open_run_def)

lemma from_run_bounds:
  assumes "from_run sb P start_idx end_idx s_idx e_idx mn p"
  shows "\<exists>a b. is_run sb P start_idx end_idx a b \<and> mn \<le> b - a + 1
           \<and> s_idx \<le> fst p \<and> (0 < a \<longrightarrow> fst p = max a s_idx)
           \<and> snd p = min (b + 1) e_idx \<and> snd p \<le> e_idx"
proof -
  from assms obtain a b where run: "is_run sb P start_idx end_idx a b" and len: "mn \<le> b - a + 1"
    and f: "fst p = max (recorded_start a b) s_idx" and s: "snd p = min (b + 1) e_idx"
    unfolding from_run_def by blast
  have 1: "0 < a \<longrightarrow> fst p = max a s_idx"
    using f by (simp add: recorded_start_def)
  have 2: "s_idx \<le> fst p" using f by simp
  have 3: "snd p \<le> e_idx" using s by simp
  from run len 1 2 3 s show ?thesis by blast
qed

lemma make_interval_pair:
  "make_interval S r p = (S + c_int (fst p * r), S + c_int (snd p * r))"
  by (simp add: make_interval_def dt_plus_seconds)

lemma make_interval_in_range:
  assumes "c_int_range (s * r)" and "c_int_range (c * r)"
  shows "make_interval S r (s, c) = (S + s * r, S + c * r)"
  using c_int_in_range [OF assms(1)] c_int_in_range [OF assms(2)]
  by (simp add: make_interval_pair)

lemma slot_matches_satisfies:
  "slot_matches sb P end_idx k \<longleftrightarrow> k < end_idx \<and> slot_satisfies sb P k"
  by (simp add: slot_matches_def slot_satisfies_def)

lemma is_run_last:
  assumes "is_run sb P start_idx end_idx a b"
  shows "slot_matches sb P end_idx b \<and> \<not> slot_matches sb P end_idx (b + 1)
           \<and> start_idx \<le> b \<and> b < end_idx"
proof -
  from assms have ab: "start_idx \<le> a" "a \<le> b"
    and all: "\<forall>k \<in> {a..b}. slot_matches sb P end_idx k"
    and nxt: "\<not> slot_matches sb P end_idx (b + 1)"
    by (simp_all add: is_run_def)
  from ab all have m: "slot_matches sb P end_idx b" by simp
  then have "b < end_idx" by (simp add: slot_matches_def)
  with ab m nxt show ?thesis by simp
qed

lemma collect_intervals_fast_sound:
  assumes "0 \<le> start_idx"
  shows "\<exists>res. collect_intervals_fast sb start_idx end_idx s_idx e_idx mn sz S r P
                 = Some (map (make_interval S r) res)
           \<and> (\<forall>p \<in> set res. from_run sb P start_idx end_idx s_idx e_idx mn p)"
proof -
  from collect_loop_sound [OF assms, of sb P end_idx s_idx e_idx mn]
  obtain res where res: "collect_loop sb P end_idx s_idx e_idx mn start_idx 0 0 [] = Some res"
    and snd: "\<forall>p \<in> set res. from_run sb P start_idx end_idx s_idx e_idx mn p"
    by blast
  have "collect_intervals_fast sb start_idx end_idx s_idx e_idx mn sz S r P
          = Some (map (make_interval S r) res)"
    by (simp add: collect_intervals_fast_def res)
  with snd show ?thesis by blast
qed

lemma collect_loop_negative:
  assumes "idx < 0" and "idx \<le> end_idx"
  shows "collect_loop sb P end_idx s_idx e_idx mn idx start duration acc = None"
  using assms by (subst collect_loop.simps) simp

lemma collect_intervals_fast_returns:
  assumes "0 \<le> start_idx"
  shows "\<exists>ivs. collect_intervals_fast sb start_idx end_idx s_idx e_idx mn sz S r P = Some ivs"
  using collect_intervals_fast_sound [OF assms, of sb end_idx s_idx e_idx mn sz S r P]
  by blast

lemma collect_intervals_fast_returned:
  assumes "collect_intervals_fast sb start_idx end_idx s_idx e_idx mn sz S r P = Some ivs"
    and "iv \<in> set ivs"
  shows "\<exists>p. iv = make_interval S r p \<and> from_run sb P start_idx end_idx s_idx e_idx mn p"
proof (cases "0 \<le> start_idx")
  case True
  from collect_intervals_fast_sound [OF True, of sb end_idx s_idx e_idx mn sz S r P]
  obtain res where res: "collect_intervals_fast sb start_idx end_idx s_idx e_idx mn sz S r P
                 = Some (map (make_interval S r) res)"
    and snd: "\<forall>p \<in> set res. from_run sb P start_idx end_idx s_idx e_idx mn p"
    by blast
  from res assms(1) have "ivs = map (make_interval S r) res" by simp
  with assms(2) obtain p where "p \<in> set res" and "iv = make_interval S r p"
    by (auto simp only: set_map image_iff)
  with snd show ?thesis by blast
next
  case False
  show ?thesis
  proof (cases "start_idx \<le> end_idx")
    case True
    with False have "collect_loop sb P end_idx s_idx e_idx mn start_idx 0 0 [] = None"
      by (simp add: collect_loop_negative)
    with assms(1) show ?thesis by (simp add: collect_intervals_fast_def)
  next
    case False
    then have "collect_loop sb P end_idx s_idx e_idx mn start_idx 0 0 [] = Some []"
      by (simp add: collect_loop_done)
    with assms show ?thesis by (simp add: collect_intervals_fast_def)
  qed
qed


lemma is_run_tested:
  assumes "is_run sb P start_idx end_idx a b"
  shows "slot_satisfies sb P b \<and> b < end_idx
           \<and> (b + 1 < end_idx \<longrightarrow> \<not> slot_satisfies sb P (b + 1))"
  using is_run_last [OF assms] by (auto simp: slot_matches_satisfies)

lemma run_beyond_scan:
  assumes "slot_satisfies sb P b" and "b < end_idx"
    and "b + 1 < end_idx \<longrightarrow> \<not> slot_satisfies sb P (b + 1)"
    and "e_idx \<le> end_idx"
    and "b \<le> b'" and "\<forall>k \<in> {b..b'}. slot_satisfies sb P k" and "\<not> slot_satisfies sb P (b' + 1)"
  shows "min (b + 1) e_idx = min (b' + 1) e_idx"
proof (cases "b' = b")
  case True
  then show ?thesis by simp
next
  case False
  with assms(5) have "b + 1 \<in> {b..b'}" by simp
  with assms(6) have "slot_satisfies sb P (b + 1)" by blast
  with assms(3) have "end_idx \<le> b + 1" by auto
  with assms(2,4,5) False show ?thesis by simp
qed

lemma collect_example:
  "collect_intervals_fast
     [Some False, Some False, Some True, Some True, Some True, Some True,
      Some False, Some False, Some False, Some False, Some False, Some False]
     1 11 5 7 4 12 63871718400 3600 (\<lambda>v. v = Some True) = Some [(63871736400, 63871740000)]"
  by (simp add: collect_intervals_fast_def collect_loop_step collect_loop_done slot_matches_def
      make_interval_pair c_int_def)

text \<open>
  Claim C2 says that every interval returned spans at least \<open>min_duration_slots\<close> slots.
  On a scoreboard of 12 slots, slots 2 to 5 match. The interval asked for is
  \<open>s_idx = 5\<close>, \<open>e_idx = 7\<close> with \<open>min_duration_slots = 4\<close>, and the scan runs over the
  window widened by four slots, from 1 to 11. The run of four slots passes the length test
  and is then cut to the interval of slots \<open>[5, 6)\<close>, one slot long.
\<close>

theorem clamped_interval_counterexample:
  "collect_intervals_fast
     [Some False, Some False, Some True, Some True, Some True, Some True,
      Some False, Some False, Some False, Some False, Some False, Some False]
     1 11 5 7 4 12 63871718400 3600 (\<lambda>v. v = Some True) = Some [(63871736400, 63871740000)]
   \<and> (63871740000 - 63871736400) div 3600 < (4::int)"
  by (simp add: collect_intervals_fast_def collect_loop_step collect_loop_done slot_matches_def
      make_interval_pair c_int_def)

text \<open>
  Claim C2, amended. A scan that starts at a slot index \<open>start_idx \<ge> 0\<close> returns. Every
  interval that \<open>collect_intervals_fast\<close> returns comes from a maximal run \<open>a..b\<close> of
  consecutive matching slots of the scan, where a slot matches when it lies below \<open>end_idx\<close>
  and satisfies the predicate (the slot \<open>end_idx\<close> itself is never tested). The run has at
  least \<open>min_duration_slots\<close> slots, so shorter runs give no interval. The interval is the
  run clamped to \<open>[s_idx, e_idx]\<close>: its start index \<open>s\<close> is at least \<open>s_idx\<close>, and is
  \<open>max a s_idx\<close> for a run that begins after slot 0; its end index \<open>c\<close> is
  \<open>min (b + 1) e_idx\<close>. The length is tested on the run, before clamping, so the interval
  itself may span fewer than \<open>min_duration_slots\<close> slots. The interval is built from the
  index pair \<open>(s, c)\<close> as the source builds it: its instants are the start date plus
  \<open>s * resolution\<close> and \<open>c * resolution\<close> seconds whenever these products fit a C \<open>int\<close>.
\<close>

theorem collect_intervals_fast_clamped_runs:
  "(0 \<le> start_idx \<longrightarrow>
      (\<exists>ivs. collect_intervals_fast sb start_idx end_idx s_idx e_idx mn sz S r P = Some ivs))
   \<and> (\<forall>ivs. collect_intervals_fast sb start_idx end_idx s_idx e_idx mn sz S r P = Some ivs \<longrightarrow>
        (\<forall>iv \<in> set ivs. \<exists>a b s c.
            is_run sb P start_idx end_idx a b \<and> mn \<le> b - a + 1
            \<and> iv = make_interval S r (s, c)
            \<and> (c_int_range (s * r) \<and> c_int_range (c * r) \<longrightarrow> iv = (S + s * r, S + c * r))
            \<and> s_idx \<le> s \<and> (0 < a \<longrightarrow> s = max a s_idx)
            \<and> c = min (b + 1) e_idx \<and> c \<le> e_idx))"
proof (intro conjI impI allI ballI)
  assume "0 \<le> start_idx"
  then show "\<exists>ivs. collect_intervals_fast sb start_idx end_idx s_idx e_idx mn sz S r P = Some ivs"
    by (rule collect_intervals_fast_returns)
next
  fix ivs iv
  assume "collect_intervals_fast sb start_idx end_idx s_idx e_idx mn sz S r P = Some ivs"
    and "iv \<in> set ivs"
  then obtain p where iv: "iv = make_interval S r p"
    and p: "from_run sb P start_idx end_idx s_idx e_idx mn p"
    using collect_intervals_fast_returned by blast
  from from_run_bounds [OF p] obtain a b
    where run: "is_run sb P start_idx end_idx a b \<and> mn \<le> b - a + 1
           \<and> s_idx \<le> fst p \<and> (0 < a \<longrightarrow> fst p = max a s_idx)
           \<and> snd p = min (b + 1) e_idx \<and> snd p \<le> e_idx"
    by blast
  have built: "iv = make_interval S r (fst p, snd p)"
    using iv by simp
  have exact: "c_int_range (fst p * r) \<and> c_int_range (snd p * r) \<longrightarrow>
      iv = (S + fst p * r, S + snd p * r)"
    using built make_interval_in_range [of "fst p" r "snd p" S] by simp
  from run built exact
  have "is_run sb P start_idx end_idx a b \<and> mn \<le> b - a + 1
          \<and> iv = make_interval S r (fst p, snd p)
          \<and> (c_int_range (fst p * r) \<and> c_int_range (snd p * r) \<longrightarrow>
                iv = (S + fst p * r, S + snd p * r))
          \<and> s_idx \<le> fst p \<and> (0 < a \<longrightarrow> fst p = max a s_idx)
          \<and> snd p = min (b + 1) e_idx \<and> snd p \<le> e_idx"
    by simp
  then show "\<exists>a b s c.
          is_run sb P start_idx end_idx a b \<and> mn \<le> b - a + 1
          \<and> iv = make_interval S r (s, c)
          \<and> (c_int_range (s * r) \<and> c_int_range (c * r) \<longrightarrow> iv = (S + s * r, S + c * r))
          \<and> s_idx \<le> s \<and> (0 < a \<longrightarrow> s = max a s_idx)
          \<and> c = min (b + 1) e_idx \<and> c \<le> e_idx"
    by (intro exI [of _ a] exI [of _ b] exI [of _ "fst p"] exI [of _ "snd p"])
qed

theorem collect_intervals_fast_clamped_runs_witness:
  "collect_intervals_fast
     [Some False, Some False, Some True, Some True, Some True, Some True,
      Some False, Some False, Some False, Some False, Some False, Some False]
     1 11 5 7 4 12 63871718400 3600 (\<lambda>v. v = Some True) = Some [(63871736400, 63871740000)]
   \<and> (\<exists>a b s c.
        is_run
          [Some False, Some False, Some True, Some True, Some True, Some True,
           Some False, Some False, Some False, Some False, Some False, Some False]
          (\<lambda>v. v = Some True) 1 11 a b
        \<and> 4 \<le> b - a + 1
        \<and> (63871736400::int, 63871740000::int) = make_interval 63871718400 3600 (s, c)
        \<and> 5 \<le> s \<and> (0 < a \<longrightarrow> s = max a 5) \<and> c = min (b + 1) 7 \<and> c \<le> 7)"
  using collect_intervals_fast_clamped_runs [of 1
      "[Some False, Some False, Some True, Some True, Some True, Some True,
        Some False, Some False, Some False, Some False, Some False, Some False]"
      11 5 7 4 12 63871718400 3600 "\<lambda>v. v = Some True"]
    collect_example
  by auto

text \<open>
  The case left out above: \<open>start\<close> is 0 both for "no run open" and for a run that begins
  at slot 0, so such a run has its start taken again at slot 1. The run of slots 0 and 1 is
  long enough for \<open>min_duration_slots = 2\<close> and is returned as the one-slot interval
  \<open>[1, 2)\<close>.
\<close>

lemma run_from_slot_zero:
  "collect_intervals_fast [Some True, Some True, Some False] 0 2 0 2 2 3 63871718400 3600
     (\<lambda>v. v = Some True) = Some [(63871722000, 63871725600)]"
  by (simp add: collect_intervals_fast_def collect_loop_step collect_loop_done slot_matches_def
      make_interval_pair c_int_def)

text \<open>
  Claim C8 says that the end of every interval is the first slot after the run that does
  not satisfy the predicate, clamped to \<open>e_idx\<close>. The scan never tests the slot \<open>end_idx\<close>
  and closes any open run there: with slots 1 to 3 satisfying the predicate, a scan over
  \<open>[0, 2]\<close> and \<open>e_idx = 4\<close>, the interval returned ends at slot 2, which satisfies the
  predicate, and not at slot 4, the first one that does not.
\<close>

theorem scan_end_counterexample:
  "collect_intervals_fast [Some False, Some True, Some True, Some True, Some False]
     0 2 0 4 1 5 63871718400 3600 (\<lambda>v. v = Some True) = Some [(63871722000, 63871725600)]
   \<and> 63871725600 = 63871718400 + 2 * (3600::int)
   \<and> slot_satisfies [Some False, Some True, Some True, Some True, Some False]
        (\<lambda>v. v = Some True) 2
   \<and> slot_satisfies [Some False, Some True, Some True, Some True, Some False]
        (\<lambda>v. v = Some True) 3
   \<and> \<not> slot_satisfies [Some False, Some True, Some True, Some True, Some False]
        (\<lambda>v. v = Some True) 4"
  by (simp add: collect_intervals_fast_def collect_loop_step collect_loop_done slot_matches_def
      slot_satisfies_def make_interval_pair c_int_def)

text \<open>
  Claim C8, amended. A scan that starts at a slot index \<open>start_idx \<ge> 0\<close> returns. Every
  interval that \<open>collect_intervals_fast\<close> returns has the end index
  \<open>c = min (b + 1) e_idx\<close>, where \<open>b\<close> is the last slot of the run \<open>a..b\<close> that the scan has
  tested: \<open>b\<close> lies below \<open>end_idx\<close> and satisfies the predicate, and the slot \<open>b + 1\<close>
  either fails the predicate or is \<open>end_idx\<close>, where the scan stops without a test. The end
  index never exceeds \<open>e_idx\<close> and the start index \<open>s\<close> never precedes \<open>s_idx\<close>. When
  \<open>e_idx \<le> end_idx\<close>, \<open>c\<close> is also \<open>min (b' + 1) e_idx\<close> for the last slot \<open>b'\<close> of the whole
  run of slots that satisfy the predicate, wherever that run ends. The end instant is the
  start date plus \<open>c * resolution\<close> seconds whenever this product fits a C \<open>int\<close>.
\<close>

theorem collect_intervals_fast_end_index:
  "(0 \<le> start_idx \<longrightarrow>
      (\<exists>ivs. collect_intervals_fast sb start_idx end_idx s_idx e_idx mn sz S r P = Some ivs))
   \<and> (\<forall>ivs. collect_intervals_fast sb start_idx end_idx s_idx e_idx mn sz S r P = Some ivs \<longrightarrow>
        (\<forall>iv \<in> set ivs. \<exists>a b s c.
            iv = make_interval S r (s, c)
            \<and> (c_int_range (c * r) \<longrightarrow> snd iv = S + c * r)
            \<and> is_run sb P start_idx end_idx a b
            \<and> slot_satisfies sb P b \<and> b < end_idx
            \<and> (b + 1 < end_idx \<longrightarrow> \<not> slot_satisfies sb P (b + 1))
            \<and> c = min (b + 1) e_idx \<and> c \<le> e_idx \<and> s_idx \<le> s
            \<and> (e_idx \<le> end_idx \<longrightarrow>
                 (\<forall>b'. b \<le> b' \<and> (\<forall>k \<in> {b..b'}. slot_satisfies sb P k)
                        \<and> \<not> slot_satisfies sb P (b' + 1)
                   \<longrightarrow> c = min (b' + 1) e_idx))))"
proof (intro conjI impI allI ballI)
  assume "0 \<le> start_idx"
  then show "\<exists>ivs. collect_intervals_fast sb start_idx end_idx s_idx e_idx mn sz S r P = Some ivs"
    by (rule collect_intervals_fast_returns)
next
  fix ivs iv
  assume "collect_intervals_fast sb start_idx end_idx s_idx e_idx mn sz S r P = Some ivs"
    and "iv \<in> set ivs"
  then obtain p where iv: "iv = make_interval S r p"
    and p: "from_run sb P start_idx end_idx s_idx e_idx mn p"
    using collect_intervals_fast_returned by blast
  from from_run_bounds [OF p] obtain a b
    where run: "is_run sb P start_idx end_idx a b"
      and lo: "s_idx \<le> fst p" and c: "snd p = min (b + 1) e_idx" and hi: "snd p \<le> e_idx"
    by blast
  note tested = is_run_tested [OF run]
  have built: "iv = make_interval S r (fst p, snd p)"
    using iv by simp
  have exact: "c_int_range (snd p * r) \<longrightarrow> snd iv = S + snd p * r"
    using iv c_int_in_range [of "snd p * r"] by (simp add: make_interval_pair)
  have beyond: "e_idx \<le> end_idx \<longrightarrow>
      (\<forall>b'. b \<le> b' \<and> (\<forall>k \<in> {b..b'}. slot_satisfies sb P k) \<and> \<not> slot_satisfies sb P (b' + 1)
         \<longrightarrow> snd p = min (b' + 1) e_idx)"
    unfolding c using run_beyond_scan [of sb P b end_idx e_idx] tested by blast
  from built exact run tested c hi lo beyond
  have "iv = make_interval S r (fst p, snd p)
            \<and> (c_int_range (snd p * r) \<longrightarrow> snd iv = S + snd p * r)
            \<and> is_run sb P start_idx end_idx a b
            \<and> slot_satisfies sb P b \<and> b < end_idx
            \<and> (b + 1 < end_idx \<longrightarrow> \<not> slot_satisfies sb P (b + 1))
            \<and> snd p = min (b + 1) e_idx \<and> snd p \<le> e_idx \<and> s_idx \<le> fst p
            \<and> (e_idx \<le> end_idx \<longrightarrow>
                 (\<forall>b'. b \<le> b' \<and> (\<forall>k \<in> {b..b'}. slot_satisfies sb P k)
                        \<and> \<not> slot_satisfies sb P (b' + 1)
                   \<longrightarrow> snd p = min (b' + 1) e_idx))"
    by simp
  then show "\<exists>a b s c.
            iv = make_interval S r (s, c)
            \<and> (c_int_range (c * r) \<longrightarrow> snd iv = S + c * r)
            \<and> is_run sb P start_idx end_idx a b
            \<and> slot_satisfies sb P b \<and> b < end_idx
            \<and> (b + 1 < end_idx \<longrightarrow> \<not> slot_satisfies sb P (b + 1))
            \<and> c = min (b + 1) e_idx \<and> c \<le> e_idx \<and> s_idx \<le> s
            \<and> (e_idx \<le> end_idx \<longrightarrow>
                 (\<forall>b'. b \<le> b' \<and> (\<forall>k \<in> {b..b'}. slot_satisfies sb P k)
                        \<and> \<not> slot_satisfies sb P (b' + 1)
                   \<longrightarrow> c = min (b' + 1) e_idx))"
    by (intro exI [of _ a] exI [of _ b] exI [of _ "fst p"] exI [of _ "snd p"])
qed

theorem collect_intervals_fast_end_index_witness:
  "collect_intervals_fast [Some True, Some True, Some False, Some True]
     0 3 0 3 1 4 63871718400 3600 (\<lambda>v. v = Some True)
     = Some [(63871722000, 63871725600)]
   \<and> (\<exists>a b s c.
        (63871722000, 63871725600) = make_interval 63871718400 3600 (s, c)
        \<and> (c_int_range (c * 3600) \<longrightarrow> snd (63871722000::int, 63871725600::int) = 63871718400 + c * 3600)
        \<and> is_run [Some True, Some True, Some False, Some True] (\<lambda>v. v = Some True) 0 3 a b
        \<and> slot_satisfies [Some True, Some True, Some False, Some True] (\<lambda>v. v = Some True) b
        \<and> b < 3
        \<and> (b + 1 < 3 \<longrightarrow>
             \<not> slot_satisfies [Some True, Some True, Some False, Some True]
                 (\<lambda>v. v = Some True) (b + 1))
        \<and> c = min (b + 1) 3 \<and> c \<le> 3 \<and> 0 \<le> s
        \<and> ((3::int) \<le> 3 \<longrightarrow>
             (\<forall>b'. b \<le> b'
               \<and> (\<forall>k \<in> {b..b'}.
                     slot_satisfies [Some True, Some True, Some False, Some True]
                       (\<lambda>v. v = Some True) k)
               \<and> \<not> slot_satisfies [Some True, Some True, Some False, Some True]
                     (\<lambda>v. v = Some True) (b' + 1)
             \<longrightarrow> c = min (b' + 1) 3)))"
proof -
  let ?sb = "[Some True, Some True, Some False, Some True]"
  let ?P = "\<lambda>v. v = Some True"
  have ev: "collect_intervals_fast ?sb 0 3 0 3 1 4 63871718400 3600 ?P
     = Some [(63871722000, 63871725600)]"
    by (simp add: collect_intervals_fast_def collect_loop_step collect_loop_done slot_matches_def
      make_interval_pair c_int_def)
  have mem: "(63871722000::int, 63871725600::int) \<in> set [(63871722000, 63871725600)]"
    by simp
  from collect_intervals_fast_end_index [of 0 ?sb 3 0 3 1 4 63871718400 3600 ?P]
  have "\<forall>ivs. collect_intervals_fast ?sb 0 3 0 3 1 4 63871718400 3600 ?P = Some ivs \<longrightarrow>
        (\<forall>iv \<in> set ivs. \<exists>a b s c.
            iv = make_interval 63871718400 3600 (s, c)
            \<and> (c_int_range (c * 3600) \<longrightarrow> snd iv = 63871718400 + c * 3600)
            \<and> is_run ?sb ?P 0 3 a b
            \<and> slot_satisfies ?sb ?P b \<and> b < 3
            \<and> (b + 1 < 3 \<longrightarrow> \<not> slot_satisfies ?sb ?P (b + 1))
            \<and> c = min (b + 1) 3 \<and> c \<le> 3 \<and> 0 \<le> s
            \<and> ((3::int) \<le> 3 \<longrightarrow>
                 (\<forall>b'. b \<le> b' \<and> (\<forall>k \<in> {b..b'}. slot_satisfies ?sb ?P k)
                        \<and> \<not> slot_satisfies ?sb ?P (b' + 1)
                   \<longrightarrow> c = min (b' + 1) 3)))"
    by (rule conjunct2)
  from ev this [rule_format, OF ev mem] show ?thesis
    by (rule conjI)
qed

end
